theory Spec2Isabelle
  imports Complex_Main "HOL-Library.Sublist"
begin

section \<open>Values of the two parsed documents\<close>

text \<open>
  \<^verbatim>\<open>json.load\<close> yields \<^verbatim>\<open>None\<close>, booleans, numbers, strings, lists and dictionaries.
  A dictionary is kept as the list of its items in insertion order (the order
  \<^verbatim>\<open>.items()\<close> iterates in); the parser never produces two items with one key.
  Numbers are exact rationals: Python's \<^verbatim>\<open>int\<close> is exact, and the rounding of
  \<^verbatim>\<open>float\<close> addition is not modelled. Strings are lists of 8-bit characters.
\<close>

datatype json =
    JNull
  | JBool bool
  | JNum rat
  | JStr string
  | JArr "json list"
  | JObj "(string \<times> json) list"

text \<open>The exceptions that the function can raise internally.\<close>

datatype exn =
    FileNotFoundError
  | OSError
  | JSONDecodeError
  | AttributeError
  | TypeError
  | ValueError
  | KeyError
  | IndexError

text \<open>Sequencing of a computation that may raise: the first exception wins.\<close>

definition and_then :: "exn + 'a \<Rightarrow> ('a \<Rightarrow> exn + 'b) \<Rightarrow> exn + 'b" where
  "and_then m f = (case m of Inl e \<Rightarrow> Inl e | Inr v \<Rightarrow> f v)"

text \<open>What \<^verbatim>\<open>open\<close> followed by \<^verbatim>\<open>json.load\<close> finds at a path.\<close>

datatype source_file = Missing | Unreadable | NotJSON | Content json

fun json_load :: "source_file \<Rightarrow> exn + json" where
  "json_load Missing = Inl FileNotFoundError"
| "json_load Unreadable = Inl OSError"
| "json_load NotJSON = Inl JSONDecodeError"
| "json_load (Content d) = Inr d"

subsection \<open>Python's operations on these values\<close>

text \<open>Truth value of an object, as \<^verbatim>\<open>if x\<close> and \<^verbatim>\<open>not x\<close> test it.\<close>

fun truthy :: "json \<Rightarrow> bool" where
  "truthy JNull = False"
| "truthy (JBool b) = b"
| "truthy (JNum n) = (n \<noteq> 0)"
| "truthy (JStr s) = (s \<noteq> [])"
| "truthy (JArr xs) = (xs \<noteq> [])"
| "truthy (JObj kvs) = (kvs \<noteq> [])"

text \<open>\<^verbatim>\<open>d.get(k, default)\<close>: only dictionaries have the method.\<close>

fun dict_get :: "json \<Rightarrow> string \<Rightarrow> json \<Rightarrow> exn + json" where
  "dict_get (JObj kvs) k dflt = Inr (case map_of kvs k of None \<Rightarrow> dflt | Some v \<Rightarrow> v)"
| "dict_get _ k dflt = Inl AttributeError"

text \<open>\<^verbatim>\<open>k in d\<close> for a dictionary \<^verbatim>\<open>d\<close>.\<close>

fun has_key :: "json \<Rightarrow> string \<Rightarrow> bool" where
  "has_key (JObj kvs) k = (map_of kvs k \<noteq> None)"
| "has_key _ k = False"

text \<open>\<^verbatim>\<open>d[k]\<close> with a string key.\<close>

fun subscript :: "json \<Rightarrow> string \<Rightarrow> exn + json" where
  "subscript (JObj kvs) k = (case map_of kvs k of None \<Rightarrow> Inl KeyError | Some v \<Rightarrow> Inr v)"
| "subscript _ k = Inl TypeError"

text \<open>\<^verbatim>\<open>xs[i]\<close> with a non-negative integer index.\<close>

fun index :: "json \<Rightarrow> nat \<Rightarrow> exn + json" where
  "index (JArr xs) i = (if i < length xs then Inr (xs ! i) else Inl IndexError)"
| "index (JStr s) i = (if i < length s then Inr (JStr [s ! i]) else Inl IndexError)"
| "index (JObj kvs) i = Inl KeyError"
| "index _ i = Inl TypeError"

text \<open>\<^verbatim>\<open>d.items()\<close>.\<close>

fun items :: "json \<Rightarrow> exn + (string \<times> json) list" where
  "items (JObj kvs) = Inr kvs"
| "items _ = Inl AttributeError"

text \<open>The sequence a \<^verbatim>\<open>for\<close> loop runs over: a dictionary yields its keys, a string its characters.\<close>

fun iter :: "json \<Rightarrow> exn + json list" where
  "iter (JArr xs) = Inr xs"
| "iter (JObj kvs) = Inr (map (\<lambda>kv. JStr (fst kv)) kvs)"
| "iter (JStr s) = Inr (map (\<lambda>c. JStr [c]) s)"
| "iter _ = Inl TypeError"

fun is_list :: "json \<Rightarrow> bool" where
  "is_list (JArr xs) = True"
| "is_list _ = False"

text \<open>\<^verbatim>\<open>len\<close>, used on a value already known to be a list.\<close>

fun len :: "json \<Rightarrow> nat" where
  "len (JArr xs) = length xs"
| "len _ = 0"

text \<open>\<^verbatim>\<open>str.lower\<close> on ASCII text.\<close>

definition lower_char :: "char \<Rightarrow> char" where
  "lower_char c =
     (let n = (of_char c :: nat) in if 65 \<le> n \<and> n \<le> 90 then char_of (n + 32) else c)"

definition str_lower :: "string \<Rightarrow> string" where
  "str_lower s = map lower_char s"

fun lower :: "json \<Rightarrow> exn + string" where
  "lower (JStr s) = Inr (str_lower s)"
| "lower _ = Inl AttributeError"

text \<open>\<^verbatim>\<open>sub in s\<close> on strings.\<close>

fun starts_with :: "string \<Rightarrow> string \<Rightarrow> bool" where
  "starts_with [] s = True"
| "starts_with (c # cs) [] = False"
| "starts_with (c # cs) (d # ds) = (c = d \<and> starts_with cs ds)"

fun contains :: "string \<Rightarrow> string \<Rightarrow> bool" where
  "contains sub [] = (sub = [])"
| "contains sub (c # cs) = (starts_with sub (c # cs) \<or> contains sub cs)"

text \<open>
  The numeric value of an operand of \<^verbatim>\<open>+\<close> or \<^verbatim>\<open><\<close> against a float: numbers, and
  booleans as 0 and 1; anything else is a \<^verbatim>\<open>TypeError\<close>.
\<close>

fun as_num :: "json \<Rightarrow> exn + rat" where
  "as_num (JNum n) = Inr n"
| "as_num (JBool b) = Inr (if b then 1 else 0)"
| "as_num _ = Inl TypeError"

text \<open>\<^verbatim>\<open>f"{x:.2f}"\<close>: the value that is printed, or the exception of \<^verbatim>\<open>__format__\<close>.\<close>

fun format_2f :: "json \<Rightarrow> exn + rat" where
  "format_2f (JNum n) = Inr n"
| "format_2f (JBool b) = Inr (if b then 1 else 0)"
| "format_2f (JStr s) = Inl ValueError"
| "format_2f _ = Inl TypeError"

section \<open>The two lookup dictionaries\<close>

text \<open>Lines 50 to 54: the sum of the \<^verbatim>\<open>apy\<close> values of a pool's \<^verbatim>\<open>gaugeRewards\<close>.\<close>

fun sum_rewards :: "rat \<Rightarrow> json list \<Rightarrow> exn + rat" where
  "sum_rewards extra_apy [] = Inr extra_apy"
| "sum_rewards extra_apy (reward # rewards) =
     and_then (and_then (dict_get reward ''apy'' (JNum 0)) as_num)
       (\<lambda>apy. sum_rewards (extra_apy + apy) rewards)"

definition extra_apy_of :: "json \<Rightarrow> exn + rat" where
  "extra_apy_of pool =
     and_then (dict_get pool ''gaugeRewards'' (JArr [])) (\<lambda>gauge_rewards.
       if truthy gauge_rewards
       then and_then (iter gauge_rewards) (sum_rewards 0)
       else Inr 0)"

text \<open>Line 45: the key under which a pool record is stored.\<close>

definition address_of :: "json \<Rightarrow> exn + string" where
  "address_of pool = and_then (dict_get pool ''address'' (JStr '''')) lower"

text \<open>Lines 44 to 55: one assignment into each dictionary per pool record.\<close>

fun build_lookups ::
  "(string \<rightharpoonup> json) \<times> (string \<rightharpoonup> rat) \<Rightarrow> json list \<Rightarrow>
   exn + ((string \<rightharpoonup> json) \<times> (string \<rightharpoonup> rat))" where
  "build_lookups lookups [] = Inr lookups"
| "build_lookups lookups (pool # pools) =
     and_then (address_of pool) (\<lambda>address.
     and_then (dict_get pool ''usdTotal'' (JNum 0)) (\<lambda>usd.
     and_then (extra_apy_of pool) (\<lambda>extra_apy.
       build_lookups ((fst lookups)(address \<mapsto> usd), (snd lookups)(address \<mapsto> extra_apy)) pools)))"

text \<open>Lines 87 and 92: \<^verbatim>\<open>.get\<close> with the defaults 0 and 0.0.\<close>

definition usd_lookup_get :: "(string \<rightharpoonup> json) \<Rightarrow> string \<Rightarrow> json" where
  "usd_lookup_get pool_usd_lookup a = (case pool_usd_lookup a of None \<Rightarrow> JNum 0 | Some v \<Rightarrow> v)"

definition extra_lookup_get :: "(string \<rightharpoonup> rat) \<Rightarrow> string \<Rightarrow> rat" where
  "extra_lookup_get pool_extra_rewards_lookup a =
     (case pool_extra_rewards_lookup a of None \<Rightarrow> 0 | Some x \<Rightarrow> x)"

section \<open>Scoring and filtering the gauge entries\<close>

record pool_entry =
  name :: string
  pool_info :: json
  gaugeCrvApy :: json
  extra_rewards_apy :: rat
  total_apy_range :: "rat list"
  max_apy :: rat
  usd_total :: json

text \<open>The entries of \<^verbatim>\<open>all_pools_with_apy\<close>, the list that is only reported.\<close>

record apy_entry =
  apy_name :: string
  apy_gaugeCrvApy :: json
  apy_extra_rewards_apy :: rat
  apy_hasNoCrv :: json

text \<open>Line 84: the key with which a gauge entry is looked up.\<close>

definition pool_address_of :: "json \<Rightarrow> exn + string" where
  "pool_address_of info = and_then (dict_get info ''swap'' (JStr '''')) lower"

text \<open>Lines 96 and 97: \<^verbatim>\<open>None\<close> counts as 0.\<close>

definition base_apy :: "json \<Rightarrow> nat \<Rightarrow> exn + json" where
  "base_apy gauge_crv_apy i =
     and_then (index gauge_crv_apy i) (\<lambda>x. Inr (if x \<noteq> JNull then x else JNum 0))"

text \<open>
  Lines 62 to 121, the body of the loop over the gauge entries. The state is the pair of
  lists \<^verbatim>\<open>high_apy_pools\<close> and \<^verbatim>\<open>all_pools_with_apy\<close>; \<^verbatim>\<open>continue\<close> returns it unchanged.
\<close>

definition loop_body ::
  "(string \<rightharpoonup> json) \<Rightarrow> (string \<rightharpoonup> rat) \<Rightarrow> rat \<Rightarrow> rat \<Rightarrow>
   pool_entry list \<times> apy_entry list \<Rightarrow> string \<times> json \<Rightarrow>
   exn + (pool_entry list \<times> apy_entry list)" where
  "loop_body pool_usd_lookup pool_extra_rewards_lookup min_apy min_usd_total st item =
     (let pool_name = fst item; info = snd item in
      and_then (dict_get info ''isPool'' (JBool False)) (\<lambda>is_pool.
      if \<not> truthy is_pool then Inr st else
      and_then (dict_get info ''gaugeCrvApy'' JNull) (\<lambda>gauge_crv_apy.
      if \<not> truthy gauge_crv_apy \<or> \<not> is_list gauge_crv_apy \<or> len gauge_crv_apy \<noteq> 2
      then Inr st else
      and_then (dict_get info ''hasNoCrv'' (JBool False)) (\<lambda>has_no_crv.
      if truthy has_no_crv then Inr st else
      and_then (dict_get info ''type'' JNull) (\<lambda>ty.
      if ty \<noteq> JStr ''stable'' then Inr st else
      let pool_name_lower = str_lower pool_name in
      if contains ''btc'' pool_name_lower \<or> contains ''eth'' pool_name_lower then Inr st else
      and_then (pool_address_of info) (\<lambda>pool_address.
      let usd = usd_lookup_get pool_usd_lookup pool_address in
      and_then (as_num usd) (\<lambda>usd_value.
      if usd_value < min_usd_total then Inr st else
      let extra_apy = extra_lookup_get pool_extra_rewards_lookup pool_address in
      and_then (base_apy gauge_crv_apy 0) (\<lambda>base_apy_0.
      and_then (base_apy gauge_crv_apy 1) (\<lambda>base_apy_1.
      and_then (as_num base_apy_0) (\<lambda>b0.
      and_then (as_num base_apy_1) (\<lambda>b1.
      let total_apy_0 = b0 + extra_apy;
          total_apy_1 = b1 + extra_apy;
          high_apy_pools =
            (if total_apy_0 > min_apy \<or> total_apy_1 > min_apy
             then fst st @
               [\<lparr>name = pool_name, pool_info = info, gaugeCrvApy = gauge_crv_apy,
                 extra_rewards_apy = extra_apy,
                 total_apy_range = [total_apy_0, total_apy_1],
                 max_apy = max total_apy_0 total_apy_1,
                 usd_total = usd\<rparr>]
             else fst st);
          all_pools_with_apy =
            (if total_apy_0 > 0 \<or> total_apy_1 > 0
             then snd st @
               [\<lparr>apy_name = pool_name, apy_gaugeCrvApy = gauge_crv_apy,
                 apy_extra_rewards_apy = extra_apy, apy_hasNoCrv = has_no_crv\<rparr>]
             else snd st)
      in Inr (high_apy_pools, all_pools_with_apy))))))))))))"

text \<open>Line 61: the loop, which an exception in the body leaves at once.\<close>

fun score_pools ::
  "(string \<rightharpoonup> json) \<Rightarrow> (string \<rightharpoonup> rat) \<Rightarrow> rat \<Rightarrow> rat \<Rightarrow>
   pool_entry list \<times> apy_entry list \<Rightarrow> (string \<times> json) list \<Rightarrow>
   exn + (pool_entry list \<times> apy_entry list)" where
  "score_pools usd_l extra_l min_apy min_usd_total st [] = Inr st"
| "score_pools usd_l extra_l min_apy min_usd_total st (item # rest) =
     and_then (loop_body usd_l extra_l min_apy min_usd_total st item)
       (\<lambda>st'. score_pools usd_l extra_l min_apy min_usd_total st' rest)"

text \<open>
  Lines 40 to 121 on the two parsed documents: both dictionaries are built from the pools
  document, then the gauge entries are scored.
\<close>

definition scan ::
  "json \<Rightarrow> json \<Rightarrow> rat \<Rightarrow> rat \<Rightarrow> exn + (pool_entry list \<times> apy_entry list)" where
  "scan data all_pools_data min_apy min_usd_total =
     and_then (subscript all_pools_data ''data'') (\<lambda>d.
     and_then (subscript d ''poolData'') (\<lambda>pool_data.
     and_then (iter pool_data) (\<lambda>pools.
     and_then (build_lookups (Map.empty, Map.empty) pools) (\<lambda>lookups.
     and_then (subscript data ''data'') (\<lambda>pools_data.
     and_then (items pools_data) (\<lambda>entries.
       score_pools (fst lookups) (snd lookups) min_apy min_usd_total ([], []) entries))))))"

section \<open>Printing and the function as a whole\<close>

text \<open>
  The lines the function prints. The text of an exception and the layout of the numbers
  are left out: a line records which message it is and the values it shows.
\<close>

datatype line =
    Invalid_gauges_structure
  | Invalid_all_pools_structure
  | File_not_found
  | Invalid_JSON_format
  | Error exn
  | Found_nonzero nat
  | Pool_line string rat rat rat
  | And_more nat
  | No_nonzero

fun is_error_line :: "line \<Rightarrow> bool" where
  "is_error_line Invalid_gauges_structure = True"
| "is_error_line Invalid_all_pools_structure = True"
| "is_error_line File_not_found = True"
| "is_error_line Invalid_JSON_format = True"
| "is_error_line (Error e) = True"
| "is_error_line _ = False"

text \<open>Lines 28 and 36: \<^verbatim>\<open>not data.get('success') or 'data' not in data\<close>.\<close>

definition invalid_structure :: "json \<Rightarrow> exn + bool" where
  "invalid_structure data =
     and_then (dict_get data ''success'' JNull) (\<lambda>s. Inr (\<not> truthy s \<or> \<not> has_key data ''data''))"

text \<open>
  Lines 129 to 132: one line per entry, until a value cannot be formatted. The result is
  the lines printed so far and the exception, if any.
\<close>

fun print_pools :: "apy_entry list \<Rightarrow> line list \<times> exn option" where
  "print_pools [] = ([], None)"
| "print_pools (pool # pools) =
     (case and_then (index (apy_gaugeCrvApy pool) 0) format_2f of
        Inl e \<Rightarrow> ([], Some e)
      | Inr a \<Rightarrow>
     (case and_then (index (apy_gaugeCrvApy pool) 1) format_2f of
        Inl e \<Rightarrow> ([], Some e)
      | Inr b \<Rightarrow>
          (Pool_line (apy_name pool) a b (apy_extra_rewards_apy pool) # fst (print_pools pools),
           snd (print_pools pools))))"

text \<open>Lines 127 to 136.\<close>

definition print_summary :: "apy_entry list \<Rightarrow> line list \<times> exn option" where
  "print_summary all_pools_with_apy =
     (if all_pools_with_apy \<noteq> [] then
        (case print_pools (take 10 all_pools_with_apy) of
           (out, Some e) \<Rightarrow> (Found_nonzero (length all_pools_with_apy) # out, Some e)
         | (out, None) \<Rightarrow>
             (Found_nonzero (length all_pools_with_apy) # out @
                (if length all_pools_with_apy > 10
                 then [And_more (length all_pools_with_apy - 10)] else []),
              None))
      else ([No_nonzero], None))"

text \<open>
  Line 124: \<^verbatim>\<open>list.sort\<close> with \<^verbatim>\<open>reverse=True\<close> is a stable sort into descending order of
  the key, which is an insertion sort on the negated key.
\<close>

definition sort_by_max_apy :: "pool_entry list \<Rightarrow> pool_entry list" where
  "sort_by_max_apy high_apy_pools = sort_key (\<lambda>x. - max_apy x) high_apy_pools"

text \<open>The body of the \<^verbatim>\<open>try\<close> block: the lines printed, and the list returned or the exception raised.\<close>

definition try_block ::
  "source_file \<Rightarrow> source_file \<Rightarrow> rat \<Rightarrow> rat \<Rightarrow> line list \<times> (exn + pool_entry list)" where
  "try_block file_path all_pools_file_path min_apy min_usd_total =
     (case json_load file_path of Inl e \<Rightarrow> ([], Inl e) | Inr data \<Rightarrow>
      case invalid_structure data of Inl e \<Rightarrow> ([], Inl e) | Inr bad \<Rightarrow>
      if bad then ([Invalid_gauges_structure], Inr []) else
      case json_load all_pools_file_path of Inl e \<Rightarrow> ([], Inl e) | Inr all_pools_data \<Rightarrow>
      case invalid_structure all_pools_data of Inl e \<Rightarrow> ([], Inl e) | Inr bad' \<Rightarrow>
      if bad' then ([Invalid_all_pools_structure], Inr []) else
      case scan data all_pools_data min_apy min_usd_total of Inl e \<Rightarrow> ([], Inl e)
      | Inr found \<Rightarrow>
          let high_apy_pools = sort_by_max_apy (fst found) in
          case print_summary (snd found) of
            (out, Some e) \<Rightarrow> (out, Inl e)
          | (out, None) \<Rightarrow> (out, Inr high_apy_pools))"

text \<open>Lines 140 to 148: the three handlers print a line and return the empty list.\<close>

fun handler :: "exn \<Rightarrow> line" where
  "handler FileNotFoundError = File_not_found"
| "handler JSONDecodeError = Invalid_JSON_format"
| "handler e = Error e"

definition filter_high_apy_pools ::
  "source_file \<Rightarrow> source_file \<Rightarrow> rat \<Rightarrow> rat \<Rightarrow> line list \<times> pool_entry list" where
  "filter_high_apy_pools file_path all_pools_file_path min_apy min_usd_total =
     (case try_block file_path all_pools_file_path min_apy min_usd_total of
        (out, Inr result) \<Rightarrow> (out, result)
      | (out, Inl e) \<Rightarrow> (out @ [handler e], []))"

section \<open>Notions used to state the properties\<close>


text \<open>A parsed document without a truthy \<^verbatim>\<open>success\<close> flag or without a \<^verbatim>\<open>data\<close> payload.\<close>

definition lacks_success_or_data :: "json \<Rightarrow> bool" where
  "lacks_success_or_data d =
     (case d of
        JObj kvs \<Rightarrow>
          (case map_of kvs ''success'' of None \<Rightarrow> True | Some s \<Rightarrow> \<not> truthy s)
          \<or> map_of kvs ''data'' = None
      | _ \<Rightarrow> True)"

text \<open>A source file that does not exist, cannot be read, is not JSON, or holds such a document.\<close>

fun unusable :: "source_file \<Rightarrow> bool" where
  "unusable Missing = True"
| "unusable Unreadable = True"
| "unusable NotJSON = True"
| "unusable (Content d) = lacks_success_or_data d"

subsection \<open>Well-formed pool records\<close>

text \<open>
  The shape of a pool record of the pools document: fields may be missing, and a field
  that is there has the type of the data model (\<^verbatim>\<open>address\<close> a string, \<^verbatim>\<open>usdTotal\<close> a number,
  \<^verbatim>\<open>gaugeRewards\<close> a list of objects whose \<^verbatim>\<open>apy\<close>, if any, is a number).
\<close>

fun is_num :: "json \<Rightarrow> bool" where
  "is_num (JNum n) = True"
| "is_num _ = False"

fun is_str :: "json \<Rightarrow> bool" where
  "is_str (JStr s) = True"
| "is_str _ = False"

definition wf_reward :: "json \<Rightarrow> bool" where
  "wf_reward r =
     (case r of
        JObj kvs \<Rightarrow> (case map_of kvs ''apy'' of None \<Rightarrow> True | Some v \<Rightarrow> is_num v)
      | _ \<Rightarrow> False)"

definition wf_pool_record :: "json \<Rightarrow> bool" where
  "wf_pool_record p =
     (case p of
        JObj kvs \<Rightarrow>
          (case map_of kvs ''address'' of None \<Rightarrow> True | Some v \<Rightarrow> is_str v)
          \<and> (case map_of kvs ''usdTotal'' of None \<Rightarrow> True | Some v \<Rightarrow> is_num v)
          \<and> (case map_of kvs ''gaugeRewards'' of
                None \<Rightarrow> True
              | Some (JArr rs) \<Rightarrow> list_all wf_reward rs
              | Some _ \<Rightarrow> False)
      | _ \<Rightarrow> False)"

text \<open>The \<^verbatim>\<open>apy\<close> values that are present in a list of rewards, in order.\<close>

definition present_apys :: "json list \<Rightarrow> rat list" where
  "present_apys rewards =
     concat (map (\<lambda>r. case r of
                         JObj kvs \<Rightarrow> (case map_of kvs ''apy'' of Some (JNum x) \<Rightarrow> [x] | _ \<Rightarrow> [])
                       | _ \<Rightarrow> []) rewards)"

subsection \<open>The join and the score as specified\<close>

text \<open>A field of a record of a document, if the record has it.\<close>

definition field :: "json \<Rightarrow> string \<Rightarrow> json option" where
  "field d k = (case d of JObj kvs \<Rightarrow> map_of kvs k | _ \<Rightarrow> None)"

text \<open>The number a value stands for in a sum; \<^verbatim>\<open>None\<close> counts as 0.\<close>

fun num_or_zero :: "json \<Rightarrow> rat" where
  "num_or_zero (JNum x) = x"
| "num_or_zero (JBool b) = (if b then 1 else 0)"
| "num_or_zero _ = 0"

text \<open>The pool record a lower-cased address is joined to: the last one stored under it.\<close>

definition joined_pool :: "json list \<Rightarrow> string \<Rightarrow> json option" where
  "joined_pool pools a = find (\<lambda>p. address_of p = Inr a) (rev pools)"

text \<open>The \<^verbatim>\<open>usdTotal\<close> of a pool record, 0 when it has none.\<close>

definition usd_of :: "json \<Rightarrow> json" where
  "usd_of p = (case field p ''usdTotal'' of None \<Rightarrow> JNum 0 | Some v \<Rightarrow> v)"

text \<open>The sum of the \<^verbatim>\<open>apy\<close> values of a pool record's \<^verbatim>\<open>gaugeRewards\<close>.\<close>

definition rewards_sum :: "json \<Rightarrow> rat" where
  "rewards_sum p =
     sum_list (map (\<lambda>r. case field r ''apy'' of None \<Rightarrow> 0 | Some v \<Rightarrow> num_or_zero v)
                   (case field p ''gaugeRewards'' of Some (JArr rs) \<Rightarrow> rs | _ \<Rightarrow> []))"

text \<open>The join key of a gauge entry: its lower-cased \<^verbatim>\<open>swap\<close> address.\<close>

definition join_key :: "json \<Rightarrow> string" where
  "join_key info = (case field info ''swap'' of Some (JStr s) \<Rightarrow> str_lower s | _ \<Rightarrow> '''')"

text \<open>The joined \<^verbatim>\<open>usdTotal\<close> and extra rewards APY of a gauge entry, 0 without a match.\<close>

definition joined_usd_total :: "json list \<Rightarrow> json \<Rightarrow> json" where
  "joined_usd_total pools info =
     (case joined_pool pools (join_key info) of None \<Rightarrow> JNum 0 | Some p \<Rightarrow> usd_of p)"

definition joined_extra_apy :: "json list \<Rightarrow> json \<Rightarrow> rat" where
  "joined_extra_apy pools info =
     (case joined_pool pools (join_key info) of None \<Rightarrow> 0 | Some p \<Rightarrow> rewards_sum p)"


subsection \<open>Well-formed gauge records and the qualification items\<close>

text \<open>The shape of a gauge record: \<^verbatim>\<open>swap\<close>, if there, is a string, and \<^verbatim>\<open>gaugeCrvApy\<close>, if there,
  is \<^verbatim>\<open>null\<close> or a list of numbers and \<^verbatim>\<open>null\<close>s.\<close>

definition wf_gauge_record :: "json \<Rightarrow> bool" where
  "wf_gauge_record info =
     (case info of
        JObj kvs \<Rightarrow>
          (case map_of kvs ''swap'' of None \<Rightarrow> True | Some v \<Rightarrow> is_str v)
          \<and> (case map_of kvs ''gaugeCrvApy'' of
                None \<Rightarrow> True
              | Some JNull \<Rightarrow> True
              | Some (JArr xs) \<Rightarrow> list_all (\<lambda>x. x = JNull \<or> is_num x) xs
              | Some _ \<Rightarrow> False)
      | _ \<Rightarrow> False)"

text \<open>Qualification items 1 to 4: \<^verbatim>\<open>isPool\<close>, a two-element \<^verbatim>\<open>gaugeCrvApy\<close>, not \<^verbatim>\<open>hasNoCrv\<close>, type \<^verbatim>\<open>stable\<close>.\<close>

definition passes_items_1_to_4 :: "json \<Rightarrow> bool" where
  "passes_items_1_to_4 info =
     (truthy (case field info ''isPool'' of None \<Rightarrow> JBool False | Some v \<Rightarrow> v)
      \<and> (case field info ''gaugeCrvApy'' of Some (JArr xs) \<Rightarrow> length xs = 2 | _ \<Rightarrow> False)
      \<and> \<not> truthy (case field info ''hasNoCrv'' of None \<Rightarrow> JBool False | Some v \<Rightarrow> v)
      \<and> field info ''type'' = Some (JStr ''stable''))"

text \<open>Item 5: the lower-cased name contains neither \<^verbatim>\<open>btc\<close> nor \<^verbatim>\<open>eth\<close>.\<close>

definition name_allowed :: "string \<Rightarrow> bool" where
  "name_allowed n = (\<not> contains ''btc'' (str_lower n) \<and> \<not> contains ''eth'' (str_lower n))"

text \<open>\<^verbatim>\<open>gaugeCrvApy[i]\<close> of a gauge entry and \<^verbatim>\<open>totalApyRange[i]\<close> as specified.\<close>

definition gauge_apy :: "json \<Rightarrow> nat \<Rightarrow> json" where
  "gauge_apy info i =
     (case field info ''gaugeCrvApy'' of
        Some (JArr xs) \<Rightarrow> if i < length xs then xs ! i else JNull
      | _ \<Rightarrow> JNull)"

definition total_apy :: "json list \<Rightarrow> json \<Rightarrow> nat \<Rightarrow> rat" where
  "total_apy pools info i = num_or_zero (gauge_apy info i) + joined_extra_apy pools info"

text \<open>Items 1 to 6 together, and the test of the total APY against a threshold.\<close>

definition qualifies :: "json list \<Rightarrow> rat \<Rightarrow> string \<Rightarrow> json \<Rightarrow> bool" where
  "qualifies pools min_usd_total n info =
     (passes_items_1_to_4 info \<and> name_allowed n
      \<and> min_usd_total \<le> num_or_zero (joined_usd_total pools info))"

definition apy_above :: "json list \<Rightarrow> rat \<Rightarrow> json \<Rightarrow> bool" where
  "apy_above pools m info = (total_apy pools info 0 > m \<or> total_apy pools info 1 > m)"

subsection \<open>The documents of the worked example\<close>

abbreviation ex_gauge :: "json \<Rightarrow> json" where
  "ex_gauge g \<equiv>
     JObj [(''isPool'', JBool True), (''type'', JStr ''stable''), (''hasNoCrv'', JBool False),
           (''swap'', JStr ''0xAA''), (''gaugeCrvApy'', g)]"

abbreviation ex_gauges_doc :: "(string \<times> json) list \<Rightarrow> json" where
  "ex_gauges_doc entries \<equiv> JObj [(''success'', JBool True), (''data'', JObj entries)]"

abbreviation ex_pool :: "rat \<Rightarrow> json" where
  "ex_pool u \<equiv>
     JObj [(''address'', JStr ''0xaa''), (''usdTotal'', JNum u),
           (''gaugeRewards'', JArr [JObj [(''apy'', JNum 3)]])]"

abbreviation ex_pools_doc :: "json list \<Rightarrow> json" where
  "ex_pools_doc pools \<equiv>
     JObj [(''success'', JBool True), (''data'', JObj [(''poolData'', JArr pools)])]"

abbreviation ex_low_pool :: json where
  "ex_low_pool \<equiv>
     JObj [(''address'', JStr ''0xbb''), (''usdTotal'', JNum 4000000),
           (''gaugeRewards'', JArr [JObj [(''apy'', JNum 3)]])]"

abbreviation ex_low_gauge :: json where
  "ex_low_gauge \<equiv>
     JObj [(''isPool'', JBool True), (''type'', JStr ''stable''), (''hasNoCrv'', JBool False),
           (''swap'', JStr ''0xBB''), (''gaugeCrvApy'', JArr [JNum 5, JNum 6])]"

section \<open>Basic facts\<close>

lemma and_then_simps [simp]:
  "and_then (Inl e) f = Inl e"
  "and_then (Inr v) f = f v"
  by (simp_all add: and_then_def)



lemma handler_is_error: "is_error_line (handler e)"
  by (cases e) simp_all

section \<open>Failures of loading\<close>

lemma invalid_structure_lacking:
  "lacks_success_or_data d \<Longrightarrow>
     invalid_structure d = Inr True \<or> (\<exists>e. invalid_structure d = Inl e)"
  by (cases d) (auto simp: lacks_success_or_data_def invalid_structure_def split: option.splits)

lemma first_unusable:
  assumes "unusable f1"
  shows "\<exists>l. is_error_line l \<and> filter_high_apy_pools f1 f2 a u = ([l], [])"
proof (cases f1)
  case (Content d)
  then have "lacks_success_or_data d" using assms by simp
  then show ?thesis
    using invalid_structure_lacking [of d] Content
    by (auto simp: filter_high_apy_pools_def try_block_def handler_is_error)
qed (use assms in \<open>simp_all add: filter_high_apy_pools_def try_block_def\<close>)

lemma second_unusable:
  assumes "unusable f2"
  shows "\<exists>l. is_error_line l \<and> filter_high_apy_pools f1 f2 a u = ([l], [])"
proof (cases "json_load f1")
  case (Inl e)
  then show ?thesis by (simp add: filter_high_apy_pools_def try_block_def handler_is_error)
next
  case (Inr data)
  note load1 = this
  show ?thesis
  proof (cases "invalid_structure data")
    case (Inl e)
    then show ?thesis using load1
      by (simp add: filter_high_apy_pools_def try_block_def handler_is_error)
  next
    case (Inr bad)
    note inv1 = this
    show ?thesis
    proof (cases bad)
      case True
      then show ?thesis using load1 inv1
        by (simp add: filter_high_apy_pools_def try_block_def)
    next
      case False
      show ?thesis
      proof (cases f2)
        case (Content d)
        then have "lacks_success_or_data d" using assms by simp
        then show ?thesis
          using invalid_structure_lacking [of d] Content load1 inv1 False
          by (auto simp: filter_high_apy_pools_def try_block_def handler_is_error)
      qed (use assms load1 inv1 False in
            \<open>simp_all add: filter_high_apy_pools_def try_block_def\<close>)
    qed
  qed
qed

text \<open>
  Claim C4. When either source file does not exist, cannot be read or is not valid JSON, or a parsed
  document has no truthy top-level \<^verbatim>\<open>success\<close> flag or no \<^verbatim>\<open>data\<close> payload, the function prints
  exactly one line, an error message, and returns the empty list. The function is total:
  every exception of the \<^verbatim>\<open>try\<close> block ends in a handler.
\<close>

theorem unusable_document_gives_error_and_empty_result:
  assumes "unusable file_path \<or> unusable all_pools_file_path"
  shows "\<exists>l. is_error_line l \<and>
           filter_high_apy_pools file_path all_pools_file_path min_apy min_usd_total = ([l], [])"
  using assms first_unusable second_unusable by blast

theorem unusable_document_witness:
  "unusable (Content (JObj [(''success'', JBool False), (''data'', JObj [(''poolData'', JArr [])])])) \<and>
   (\<exists>l. is_error_line l \<and>
      filter_high_apy_pools
        (Content (ex_gauges_doc [(''stable3pool'', ex_gauge (JArr [JNum 5, JNum 6]))]))
        (Content (JObj [(''success'', JBool False), (''data'', JObj [(''poolData'', JArr [])])]))
        7 5000000 = ([l], []))"
proof -
  have h: "unusable (Content (JObj [(''success'', JBool False), (''data'', JObj [(''poolData'', JArr [])])]))"
    by (simp add: lacks_success_or_data_def)
  then have "unusable (Content (ex_gauges_doc [(''stable3pool'', ex_gauge (JArr [JNum 5, JNum 6]))]))
      \<or> unusable (Content (JObj [(''success'', JBool False), (''data'', JObj [(''poolData'', JArr [])])]))"
    by (rule disjI2)
  then have r: "\<exists>l. is_error_line l \<and>
      filter_high_apy_pools
        (Content (ex_gauges_doc [(''stable3pool'', ex_gauge (JArr [JNum 5, JNum 6]))]))
        (Content (JObj [(''success'', JBool False), (''data'', JObj [(''poolData'', JArr [])])]))
        7 5000000 = ([l], [])"
    by (rule unusable_document_gives_error_and_empty_result)
  show ?thesis using h r by (rule conjI)
qed

section \<open>Entries that are skipped\<close>






section \<open>The sum of the extra rewards\<close>

lemma sum_rewards_append:
  "sum_rewards acc (xs @ ys) = and_then (sum_rewards acc xs) (\<lambda>acc'. sum_rewards acc' ys)"
proof (induction xs arbitrary: acc)
  case Nil
  show ?case by simp
next
  case (Cons r rs)
  show ?case
    by (cases "and_then (dict_get r ''apy'' (JNum 0)) as_num") (simp_all add: Cons.IH)
qed

lemma sum_rewards_skip:
  assumes "map_of kvs ''apy'' = None"
  shows "sum_rewards acc (before @ JObj kvs # after) = sum_rewards acc (before @ after)"
  using assms by (cases "sum_rewards acc before") (simp_all add: sum_rewards_append)

lemma sum_rewards_wf:
  "list_all wf_reward rewards \<Longrightarrow>
     sum_rewards acc rewards = Inr (acc + sum_list (present_apys rewards))"
proof (induction rewards arbitrary: acc)
  case Nil
  show ?case by (simp add: present_apys_def)
next
  case (Cons r rs)
  from Cons.prems have wfr: "wf_reward r" and rest: "list_all wf_reward rs" by simp_all
  from wfr obtain kvs where r: "r = JObj kvs"
    by (cases r) (simp_all add: wf_reward_def)
  have wf: "wf_reward (JObj kvs)" using wfr r by simp
  show ?case
  proof (cases "map_of kvs ''apy''")
    case None
    then show ?thesis using Cons.IH [OF rest] by (simp add: r present_apys_def)
  next
    case (Some v)
    then obtain x where "v = JNum x" using wf by (cases v) (simp_all add: wf_reward_def)
    then show ?thesis using Some Cons.IH [OF rest]
      by (simp add: r present_apys_def add.assoc)
  qed
qed

text \<open>
  Claim C10. A \<^verbatim>\<open>gaugeRewards\<close> element without an \<^verbatim>\<open>apy\<close> key adds 0 to the sum and raises
  nothing: the loop gives the same result as without the element, and when the other
  elements are well formed the pool's extra APY is the sum of the \<^verbatim>\<open>apy\<close> values that are present.
\<close>

theorem reward_without_apy_contributes_zero:
  assumes "dict_get pool ''gaugeRewards'' (JArr []) = Inr (JArr (before @ JObj kvs # after))"
    and "map_of kvs ''apy'' = None"
    and "list_all wf_reward (before @ after)"
  shows "sum_rewards 0 (before @ JObj kvs # after) = sum_rewards 0 (before @ after)
       \<and> extra_apy_of pool = Inr (sum_list (present_apys (before @ after)))"
proof -
  have skip: "sum_rewards 0 (before @ JObj kvs # after) = sum_rewards 0 (before @ after)"
    using assms(2) by (rule sum_rewards_skip)
  have "extra_apy_of pool = sum_rewards 0 (before @ JObj kvs # after)"
    using assms(1) by (simp add: extra_apy_of_def)
  also have "\<dots> = Inr (sum_list (present_apys (before @ after)))"
    using sum_rewards_wf [OF assms(3), of 0] by (simp add: skip)
  finally show ?thesis using skip by simp
qed

theorem reward_without_apy_witness:
  "extra_apy_of (JObj [(''address'', JStr ''0xaa''),
      (''gaugeRewards'', JArr [JObj [(''apy'', JNum 3)], JObj [(''symbol'', JStr ''CRV'')],
                               JObj [(''apy'', JNum 2)]])]) = Inr 5"
proof -
  let ?pool = "JObj [(''address'', JStr ''0xaa''),
      (''gaugeRewards'', JArr ([JObj [(''apy'', JNum 3)]] @ JObj [(''symbol'', JStr ''CRV'')] #
                               [JObj [(''apy'', JNum 2)]]))]"
  have h1: "dict_get ?pool ''gaugeRewards'' (JArr []) =
      Inr (JArr ([JObj [(''apy'', JNum 3)]] @ JObj [(''symbol'', JStr ''CRV'')] #
                               [JObj [(''apy'', JNum 2)]]))" by simp
  have h2: "map_of [(''symbol'', JStr ''CRV'')] ''apy'' = None" by simp
  have h3: "list_all wf_reward ([JObj [(''apy'', JNum 3)]] @ [JObj [(''apy'', JNum 2)]])"
    by (simp add: wf_reward_def)
  have "sum_list (present_apys ([JObj [(''apy'', JNum 3)]] @ [JObj [(''apy'', JNum 2)]])) = 5"
    by (simp add: present_apys_def)
  then show ?thesis
    using reward_without_apy_contributes_zero [OF h1 h2 h3] by simp
qed

section \<open>Entries without a match in the lookup dictionaries\<close>

lemma build_lookups_dom:
  "build_lookups lookups pools = Inr lookups' \<Longrightarrow> dom (fst lookups) = dom (snd lookups)
     \<Longrightarrow> dom (fst lookups') = dom (snd lookups')"
proof (induction pools arbitrary: lookups)
  case Nil
  then show ?case by simp
next
  case (Cons pool pools)
  from Cons.prems(1) obtain address usd extra_apy where
    step: "address_of pool = Inr address" "dict_get pool ''usdTotal'' (JNum 0) = Inr usd"
      "extra_apy_of pool = Inr extra_apy"
    and rest: "build_lookups ((fst lookups)(address \<mapsto> usd), (snd lookups)(address \<mapsto> extra_apy)) pools
          = Inr lookups'"
    by (auto simp: and_then_def split: sum.splits)
  have "dom ((fst lookups)(address \<mapsto> usd)) = dom ((snd lookups)(address \<mapsto> extra_apy))"
    unfolding dom_fun_upd using Cons.prems(2) by simp
  then show ?case
    by (intro Cons.IH [OF rest]) (simp only: fst_conv snd_conv)
qed

text \<open>
  Claim C6. For a gauge entry whose lower-cased \<^verbatim>\<open>swap\<close> address is not a key of the
  dictionary built from the pools document, the joined \<^verbatim>\<open>usdTotal\<close> is 0 and the extra rewards
  APY is 0; when \<^verbatim>\<open>min_usd_total\<close> is positive the loop body raises nothing and leaves both
  lists as they were, so the entry is not in the result.
\<close>

theorem unmatched_entry_is_excluded:
  assumes "build_lookups (Map.empty, Map.empty) pools = Inr (pool_usd_lookup, pool_extra_rewards_lookup)"
    and "pool_address_of info = Inr pool_address"
    and "pool_usd_lookup pool_address = None"
    and "0 < min_usd_total"
  shows "usd_lookup_get pool_usd_lookup pool_address = JNum 0
       \<and> extra_lookup_get pool_extra_rewards_lookup pool_address = 0
       \<and> loop_body pool_usd_lookup pool_extra_rewards_lookup min_apy min_usd_total st (n, info)
           = Inr st"
proof -
  have "dom pool_usd_lookup = dom pool_extra_rewards_lookup"
    using build_lookups_dom [OF assms(1)] by simp
  then have none: "pool_extra_rewards_lookup pool_address = None"
    using assms(3) by (metis domIff)
  obtain kvs where obj: "info = JObj kvs"
    using assms(2) by (cases info) (simp_all add: pool_address_of_def)
  have "loop_body pool_usd_lookup pool_extra_rewards_lookup min_apy min_usd_total st (n, info) = Inr st"
    using assms(2-4) unfolding obj
    by (simp add: loop_body_def Let_def usd_lookup_get_def)
  then show ?thesis
    using assms(3) none by (simp add: usd_lookup_get_def extra_lookup_get_def)
qed

theorem unmatched_entry_witness:
  "build_lookups (Map.empty, Map.empty) [ex_pool 6000000]
     = Inr ([''0xaa'' \<mapsto> JNum 6000000], [''0xaa'' \<mapsto> 3]) \<and>
   pool_address_of (JObj [(''isPool'', JBool True), (''type'', JStr ''stable''),
      (''swap'', JStr ''0xBB''), (''gaugeCrvApy'', JArr [JNum 50, JNum 60])]) = Inr ''0xbb'' \<and>
   usd_lookup_get [''0xaa'' \<mapsto> JNum 6000000] ''0xbb'' = JNum 0 \<and>
   extra_lookup_get [''0xaa'' \<mapsto> 3] ''0xbb'' = 0 \<and>
   loop_body [''0xaa'' \<mapsto> JNum 6000000] [''0xaa'' \<mapsto> 3] 7 1 ([], [])
     (''unmatched'', JObj [(''isPool'', JBool True), (''type'', JStr ''stable''),
      (''swap'', JStr ''0xBB''), (''gaugeCrvApy'', JArr [JNum 50, JNum 60])]) = Inr ([], [])"
proof -
  have a: "address_of (ex_pool 6000000) = Inr ''0xaa''" by code_simp
  have x: "extra_apy_of (ex_pool 6000000) = Inr 3" by code_simp
  have h1: "build_lookups (Map.empty, Map.empty) [ex_pool 6000000]
     = Inr ([''0xaa'' \<mapsto> JNum 6000000], [''0xaa'' \<mapsto> 3])"
    by (simp add: a x)
  have h2: "pool_address_of (JObj [(''isPool'', JBool True), (''type'', JStr ''stable''),
      (''swap'', JStr ''0xBB''), (''gaugeCrvApy'', JArr [JNum 50, JNum 60])]) = Inr ''0xbb''"
    by code_simp
  have h3: "[''0xaa'' \<mapsto> JNum 6000000] ''0xbb'' = None" by simp
  have h4: "(0::rat) < 1" by simp
  note t = unmatched_entry_is_excluded [OF h1 h2 h3 h4, of 7 "([], [])" "''unmatched''"]
  show ?thesis using h1 h2 t by blast
qed

section \<open>The order of the result\<close>








section \<open>What the lookup dictionaries hold\<close>

lemma build_lookups_append:
  "build_lookups lookups (xs @ ys) =
     and_then (build_lookups lookups xs) (\<lambda>lookups'. build_lookups lookups' ys)"
proof (induction xs arbitrary: lookups)
  case Nil
  show ?case by simp
next
  case (Cons p ps)
  show ?case
    by (simp add: Cons.IH and_then_def split: sum.splits)
qed

lemma build_lookups_untouched:
  "build_lookups lookups pools = Inr lookups' \<Longrightarrow>
   \<forall>q \<in> set pools. address_of q \<noteq> Inr a \<Longrightarrow>
   fst lookups' a = fst lookups a \<and> snd lookups' a = snd lookups a"
proof (induction pools arbitrary: lookups)
  case Nil
  then show ?case by simp
next
  case (Cons pool pools)
  from Cons.prems(1) obtain address usd extra_apy where
    step: "address_of pool = Inr address"
    and rest: "build_lookups ((fst lookups)(address \<mapsto> usd), (snd lookups)(address \<mapsto> extra_apy)) pools
          = Inr lookups'"
    by (auto simp: and_then_def split: sum.splits)
  have neq: "address \<noteq> a" using Cons.prems(2) step by auto
  have later: "\<forall>q \<in> set pools. address_of q \<noteq> Inr a" using Cons.prems(2) by simp
  from Cons.IH [OF rest later] neq show ?case by simp
qed

lemma wf_pool_record_steps:
  assumes "wf_pool_record pool"
  shows "\<exists>address usd extra_apy. address_of pool = Inr address
           \<and> dict_get pool ''usdTotal'' (JNum 0) = Inr (JNum usd)
           \<and> extra_apy_of pool = Inr extra_apy"
proof -
  from assms obtain kvs where p: "pool = JObj kvs"
    by (cases pool) (simp_all add: wf_pool_record_def)
  have a: "\<exists>address. address_of pool = Inr address"
  proof (cases "map_of kvs ''address''")
    case None
    then show ?thesis by (simp add: p address_of_def)
  next
    case (Some v)
    then obtain s where "v = JStr s" using assms by (cases v) (simp_all add: p wf_pool_record_def)
    then show ?thesis using Some by (simp add: p address_of_def)
  qed
  have u: "\<exists>usd. dict_get pool ''usdTotal'' (JNum 0) = Inr (JNum usd)"
  proof (cases "map_of kvs ''usdTotal''")
    case None
    then show ?thesis by (simp add: p)
  next
    case (Some v)
    then obtain x where "v = JNum x" using assms by (cases v) (simp_all add: p wf_pool_record_def)
    then show ?thesis using Some by (simp add: p)
  qed
  have x: "\<exists>extra_apy. extra_apy_of pool = Inr extra_apy"
  proof (cases "map_of kvs ''gaugeRewards''")
    case None
    then show ?thesis by (simp add: p extra_apy_of_def)
  next
    case (Some v)
    then obtain rs where v: "v = JArr rs" and wf: "list_all wf_reward rs"
      using assms by (cases v) (simp_all add: p wf_pool_record_def)
    show ?thesis using Some sum_rewards_wf [OF wf, of 0] by (simp add: p v extra_apy_of_def)
  qed
  from a u x show ?thesis by blast
qed

lemma build_lookups_wf:
  "list_all wf_pool_record pools \<Longrightarrow> \<exists>lookups'. build_lookups lookups pools = Inr lookups'"
proof (induction pools arbitrary: lookups)
  case Nil
  show ?case by simp
next
  case (Cons pool pools)
  from Cons.prems have wf: "wf_pool_record pool" and rest: "list_all wf_pool_record pools"
    by simp_all
  from wf_pool_record_steps [OF wf] obtain address usd extra_apy where
    "address_of pool = Inr address" "dict_get pool ''usdTotal'' (JNum 0) = Inr (JNum usd)"
    "extra_apy_of pool = Inr extra_apy" by blast
  then show ?case using Cons.IH [OF rest] by simp
qed

lemma last_record_wins:
  assumes "build_lookups lookups (before @ pool # after) = Inr lookups'"
    and "address_of pool = Inr a"
    and "\<forall>q \<in> set after. address_of q \<noteq> Inr a"
  shows "\<exists>usd extra_apy. dict_get pool ''usdTotal'' (JNum 0) = Inr usd
           \<and> extra_apy_of pool = Inr extra_apy
           \<and> fst lookups' a = Some usd \<and> snd lookups' a = Some extra_apy"
proof -
  from assms(1) obtain l1 where
    l1: "build_lookups lookups before = Inr l1" and r1: "build_lookups l1 (pool # after) = Inr lookups'"
    by (auto simp: build_lookups_append and_then_def split: sum.splits)
  from r1 assms(2) obtain usd extra_apy where
    u: "dict_get pool ''usdTotal'' (JNum 0) = Inr usd" and x: "extra_apy_of pool = Inr extra_apy"
    and r2: "build_lookups ((fst l1)(a \<mapsto> usd), (snd l1)(a \<mapsto> extra_apy)) after = Inr lookups'"
    by (auto simp: and_then_def split: sum.splits)
  from build_lookups_untouched [OF r2 assms(3)]
  have "fst lookups' a = Some usd \<and> snd lookups' a = Some extra_apy" by simp
  then show ?thesis using u x by blast
qed

text \<open>
  Claim C8. When several pool records have the same address after lower-casing, both
  dictionaries hold, under that address, the values of the last of them: its \<^verbatim>\<open>usdTotal\<close>
  (0 if it has none) and the sum of its rewards. The earlier records are overwritten.
  For well-formed pool records the dictionaries are built without an exception.
\<close>

theorem duplicate_address_last_record_wins:
  assumes "list_all wf_pool_record (before @ pool # after)"
    and "address_of pool = Inr a"
    and "\<forall>q \<in> set after. address_of q \<noteq> Inr a"
  shows "\<exists>pool_usd_lookup pool_extra_rewards_lookup usd extra_apy.
           build_lookups (Map.empty, Map.empty) (before @ pool # after)
             = Inr (pool_usd_lookup, pool_extra_rewards_lookup)
           \<and> dict_get pool ''usdTotal'' (JNum 0) = Inr usd
           \<and> extra_apy_of pool = Inr extra_apy
           \<and> pool_usd_lookup a = Some usd
           \<and> pool_extra_rewards_lookup a = Some extra_apy"
proof -
  from build_lookups_wf [OF assms(1)] obtain lookups' where
    b: "build_lookups (Map.empty, Map.empty) (before @ pool # after) = Inr lookups'" by blast
  from last_record_wins [OF b assms(2,3)] b show ?thesis
    by (cases lookups') auto
qed

theorem duplicate_address_witness:
  "list_all wf_pool_record
     [JObj [(''address'', JStr ''0xAA''), (''usdTotal'', JNum 1),
            (''gaugeRewards'', JArr [JObj [(''apy'', JNum 1)]])],
      JObj [(''address'', JStr ''0xaa''), (''usdTotal'', JNum 2),
            (''gaugeRewards'', JArr [JObj [(''apy'', JNum 5)]])],
      JObj [(''address'', JStr ''0xCC''), (''usdTotal'', JNum 9)]] \<and>
   address_of (JObj [(''address'', JStr ''0xAA''), (''usdTotal'', JNum 1),
            (''gaugeRewards'', JArr [JObj [(''apy'', JNum 1)]])]) = Inr ''0xaa'' \<and>
   address_of (JObj [(''address'', JStr ''0xaa''), (''usdTotal'', JNum 2),
            (''gaugeRewards'', JArr [JObj [(''apy'', JNum 5)]])]) = Inr ''0xaa'' \<and>
   address_of (JObj [(''address'', JStr ''0xCC''), (''usdTotal'', JNum 9)]) = Inr ''0xcc'' \<and>
   (\<exists>pool_usd_lookup pool_extra_rewards_lookup.
      build_lookups (Map.empty, Map.empty)
        [JObj [(''address'', JStr ''0xAA''), (''usdTotal'', JNum 1),
               (''gaugeRewards'', JArr [JObj [(''apy'', JNum 1)]])],
         JObj [(''address'', JStr ''0xaa''), (''usdTotal'', JNum 2),
               (''gaugeRewards'', JArr [JObj [(''apy'', JNum 5)]])],
         JObj [(''address'', JStr ''0xCC''), (''usdTotal'', JNum 9)]]
        = Inr (pool_usd_lookup, pool_extra_rewards_lookup)
      \<and> pool_usd_lookup ''0xaa'' = Some (JNum 2)
      \<and> pool_extra_rewards_lookup ''0xaa'' = Some 5)"
proof -
  let ?p1 = "JObj [(''address'', JStr ''0xAA''), (''usdTotal'', JNum 1),
            (''gaugeRewards'', JArr [JObj [(''apy'', JNum 1)]])]"
  let ?p2 = "JObj [(''address'', JStr ''0xaa''), (''usdTotal'', JNum 2),
            (''gaugeRewards'', JArr [JObj [(''apy'', JNum 5)]])]"
  let ?p3 = "JObj [(''address'', JStr ''0xCC''), (''usdTotal'', JNum 9)]"
  have wf: "list_all wf_pool_record ([?p1] @ ?p2 # [?p3])"
    by (simp add: wf_pool_record_def wf_reward_def)
  have a1: "address_of ?p1 = Inr ''0xaa''" by code_simp
  have a2: "address_of ?p2 = Inr ''0xaa''" by code_simp
  have a3: "address_of ?p3 = Inr ''0xcc''" by code_simp
  have last: "\<forall>q \<in> set [?p3]. address_of q \<noteq> Inr ''0xaa''" by (simp add: a3)
  have u: "dict_get ?p2 ''usdTotal'' (JNum 0) = Inr (JNum 2)" by simp
  have x: "extra_apy_of ?p2 = Inr 5" by code_simp
  from duplicate_address_last_record_wins [OF wf a2 last] u x
  have "\<exists>pool_usd_lookup pool_extra_rewards_lookup.
      build_lookups (Map.empty, Map.empty) ([?p1] @ ?p2 # [?p3])
        = Inr (pool_usd_lookup, pool_extra_rewards_lookup)
      \<and> pool_usd_lookup ''0xaa'' = Some (JNum 2)
      \<and> pool_extra_rewards_lookup ''0xaa'' = Some 5"
    by (metis sum.inject(2))
  then show ?thesis using wf a1 a2 a3 by simp
qed

text \<open>
  Claim C9. A gauge entry without a \<^verbatim>\<open>swap\<close> field is looked up under the empty string, a
  pool record without an \<^verbatim>\<open>address\<close> field is stored under the empty string, and so the entry
  is joined to the \<^verbatim>\<open>usdTotal\<close> and the summed rewards of the last such pool record, not to the
  defaults 0 and 0.
\<close>

theorem missing_swap_joins_missing_address:
  assumes "list_all wf_pool_record (before @ JObj pool_kvs # after)"
    and "map_of pool_kvs ''address'' = None"
    and "\<forall>q \<in> set after. address_of q \<noteq> Inr ''''"
    and "map_of gauge_kvs ''swap'' = None"
  shows "pool_address_of (JObj gauge_kvs) = Inr ''''
       \<and> address_of (JObj pool_kvs) = Inr ''''
       \<and> (\<exists>pool_usd_lookup pool_extra_rewards_lookup usd extra_apy.
             build_lookups (Map.empty, Map.empty) (before @ JObj pool_kvs # after)
               = Inr (pool_usd_lookup, pool_extra_rewards_lookup)
             \<and> dict_get (JObj pool_kvs) ''usdTotal'' (JNum 0) = Inr usd
             \<and> extra_apy_of (JObj pool_kvs) = Inr extra_apy
             \<and> usd_lookup_get pool_usd_lookup '''' = usd
             \<and> extra_lookup_get pool_extra_rewards_lookup '''' = extra_apy)"
proof -
  have g: "pool_address_of (JObj gauge_kvs) = Inr ''''"
    using assms(4) by (simp add: pool_address_of_def str_lower_def)
  have p: "address_of (JObj pool_kvs) = Inr ''''"
    using assms(2) by (simp add: address_of_def str_lower_def)
  from build_lookups_wf [OF assms(1)] obtain lookups' where
    b: "build_lookups (Map.empty, Map.empty) (before @ JObj pool_kvs # after) = Inr lookups'"
    by blast
  from last_record_wins [OF b p assms(3)] b
  have "\<exists>pool_usd_lookup pool_extra_rewards_lookup usd extra_apy.
             build_lookups (Map.empty, Map.empty) (before @ JObj pool_kvs # after)
               = Inr (pool_usd_lookup, pool_extra_rewards_lookup)
             \<and> dict_get (JObj pool_kvs) ''usdTotal'' (JNum 0) = Inr usd
             \<and> extra_apy_of (JObj pool_kvs) = Inr extra_apy
             \<and> usd_lookup_get pool_usd_lookup '''' = usd
             \<and> extra_lookup_get pool_extra_rewards_lookup '''' = extra_apy"
    by (cases lookups') (auto simp: usd_lookup_get_def extra_lookup_get_def)
  with g p show ?thesis by blast
qed

theorem missing_swap_witness:
  "list_all wf_pool_record
     [JObj [(''usdTotal'', JNum 6000000), (''gaugeRewards'', JArr [JObj [(''apy'', JNum 3)]])]] \<and>
   pool_address_of (JObj [(''isPool'', JBool True), (''type'', JStr ''stable''),
                          (''gaugeCrvApy'', JArr [JNum 5, JNum 6])]) = Inr '''' \<and>
   (\<exists>pool_usd_lookup pool_extra_rewards_lookup.
      build_lookups (Map.empty, Map.empty)
        [JObj [(''usdTotal'', JNum 6000000), (''gaugeRewards'', JArr [JObj [(''apy'', JNum 3)]])]]
        = Inr (pool_usd_lookup, pool_extra_rewards_lookup)
      \<and> usd_lookup_get pool_usd_lookup '''' = JNum 6000000
      \<and> extra_lookup_get pool_extra_rewards_lookup '''' = 3) \<and>
   map name (snd (filter_high_apy_pools
     (Content (ex_gauges_doc
        [(''noswap'', JObj [(''isPool'', JBool True), (''type'', JStr ''stable''),
                            (''gaugeCrvApy'', JArr [JNum 5, JNum 6])])]))
     (Content (ex_pools_doc
        [JObj [(''usdTotal'', JNum 6000000), (''gaugeRewards'', JArr [JObj [(''apy'', JNum 3)]])]]))
     7 5000000)) = [''noswap'']"
proof -
  let ?pkvs = "[(''usdTotal'', JNum 6000000), (''gaugeRewards'', JArr [JObj [(''apy'', JNum 3)]])]"
  let ?gkvs = "[(''isPool'', JBool True), (''type'', JStr ''stable''),
                (''gaugeCrvApy'', JArr [JNum 5, JNum 6])]"
  have wf: "list_all wf_pool_record ([] @ JObj ?pkvs # [])"
    by (simp add: wf_pool_record_def wf_reward_def)
  have h2: "map_of ?pkvs ''address'' = None" by simp
  have h3: "\<forall>q \<in> set []. address_of q \<noteq> Inr ''''" by simp
  have h4: "map_of ?gkvs ''swap'' = None" by simp
  have u: "dict_get (JObj ?pkvs) ''usdTotal'' (JNum 0) = Inr (JNum 6000000)" by simp
  have x: "extra_apy_of (JObj ?pkvs) = Inr 3" by code_simp
  note t = missing_swap_joins_missing_address [OF wf h2 h3 h4]
  from t have g: "pool_address_of (JObj ?gkvs) = Inr ''''" by (rule conjunct1)
  from t u x
  have j: "\<exists>pool_usd_lookup pool_extra_rewards_lookup.
      build_lookups (Map.empty, Map.empty) ([] @ JObj ?pkvs # [])
        = Inr (pool_usd_lookup, pool_extra_rewards_lookup)
      \<and> usd_lookup_get pool_usd_lookup '''' = JNum 6000000
      \<and> extra_lookup_get pool_extra_rewards_lookup '''' = 3"
    by (metis sum.inject(2))
  have run: "map name (snd (filter_high_apy_pools
     (Content (ex_gauges_doc [(''noswap'', JObj ?gkvs)]))
     (Content (ex_pools_doc [JObj ?pkvs])) 7 5000000)) = [''noswap'']"
    by code_simp
  show ?thesis using wf g j run by simp
qed

section \<open>The join against the pools document\<close>

lemma sum_rewards_value:
  "sum_rewards acc rewards = Inr x \<Longrightarrow>
     x = acc + sum_list (map (\<lambda>r. case field r ''apy'' of None \<Rightarrow> 0 | Some v \<Rightarrow> num_or_zero v) rewards)"
proof (induction rewards arbitrary: acc)
  case Nil
  then show ?case by simp
next
  case (Cons r rs)
  from Cons.prems obtain v y where
    g: "dict_get r ''apy'' (JNum 0) = Inr v" and n: "as_num v = Inr y"
    and rest: "sum_rewards (acc + y) rs = Inr x"
    by (auto simp: and_then_def split: sum.splits)
  from g obtain kvs where r: "r = JObj kvs" by (cases r) simp_all
  have y: "y = (case field r ''apy'' of None \<Rightarrow> 0 | Some v \<Rightarrow> num_or_zero v)"
    using g n by (cases v) (auto simp: r field_def split: option.splits)
  show ?case using Cons.IH [OF rest] y by (simp add: add.assoc)
qed

lemma sum_rewards_strings:
  "rewards \<noteq> [] \<Longrightarrow> sum_rewards acc (map JStr rewards) \<noteq> Inr x"
  by (cases rewards) simp_all

lemma extra_apy_of_value:
  assumes "extra_apy_of p = Inr x"
  shows "x = rewards_sum p"
proof -
  from assms obtain kvs where p: "p = JObj kvs"
    by (cases p) (simp_all add: extra_apy_of_def)
  show ?thesis
  proof (cases "map_of kvs ''gaugeRewards''")
    case None
    then show ?thesis using assms by (simp add: p extra_apy_of_def rewards_sum_def field_def)
  next
    case (Some v)
    show ?thesis
    proof (cases v)
      case (JArr rs)
      then show ?thesis
        using assms Some sum_rewards_value [of 0 rs x]
        by (cases "rs = []") (simp_all add: p extra_apy_of_def rewards_sum_def field_def)
    next
      case (JObj kvs')
      then show ?thesis
        using assms Some sum_rewards_strings [of "map fst kvs'" 0 x]
        by (cases "kvs' = []")
           (simp_all add: p extra_apy_of_def rewards_sum_def field_def comp_def)
    next
      case (JStr s)
      then show ?thesis
        using assms Some sum_rewards_strings [of "map (\<lambda>c. [c]) s" 0 x]
        by (cases "s = []")
           (simp_all add: p extra_apy_of_def rewards_sum_def field_def comp_def)
    qed (use assms Some in
          \<open>simp_all add: p extra_apy_of_def rewards_sum_def field_def split: if_splits\<close>)
  qed
qed

lemma joined_pool_snoc:
  "joined_pool (pools @ [p]) a = (if address_of p = Inr a then Some p else joined_pool pools a)"
  by (simp add: joined_pool_def)

lemma lookups_joined:
  "build_lookups (Map.empty, Map.empty) pools = Inr lookups \<Longrightarrow>
     fst lookups a = map_option usd_of (joined_pool pools a) \<and>
     snd lookups a = map_option rewards_sum (joined_pool pools a)"
proof (induction pools arbitrary: lookups rule: rev_induct)
  case Nil
  then show ?case by (auto simp: joined_pool_def)
next
  case (snoc p ps)
  from snoc.prems obtain l1 address usd extra_apy where
    b: "build_lookups (Map.empty, Map.empty) ps = Inr l1"
    and ad: "address_of p = Inr address"
    and u: "dict_get p ''usdTotal'' (JNum 0) = Inr usd"
    and x: "extra_apy_of p = Inr extra_apy"
    and l: "lookups = ((fst l1)(address \<mapsto> usd), (snd l1)(address \<mapsto> extra_apy))"
    by (auto simp: build_lookups_append and_then_def split: sum.splits)
  have usd: "usd = usd_of p"
    using u by (cases p) (auto simp: usd_of_def field_def split: option.splits)
  have extra: "extra_apy = rewards_sum p" using x by (rule extra_apy_of_value)
  show ?case
    using snoc.IH [OF b] ad by (auto simp: l joined_pool_snoc usd extra)
qed

section \<open>The score of a result entry\<close>











section \<open>The two lists on well-formed documents\<close>

lemma wf_gauge_address:
  "wf_gauge_record info \<Longrightarrow> pool_address_of info = Inr (join_key info)"
  by (cases info)
     (auto simp: wf_gauge_record_def pool_address_of_def join_key_def field_def str_lower_def
           split: option.splits json.splits)

lemma wf_base_apy:
  assumes "x = JNull \<or> is_num x"
  shows "as_num (if x \<noteq> JNull then x else JNum 0) = Inr (num_or_zero x)"
  using assms by (cases x) auto

lemma loop_body_wf:
  assumes wf: "wf_gauge_record info"
    and L1: "\<And>a. usd_lookup_get U a =
              (case joined_pool pools a of None \<Rightarrow> JNum 0 | Some p \<Rightarrow> usd_of p)"
    and L2: "\<And>a. extra_lookup_get X a =
              (case joined_pool pools a of None \<Rightarrow> 0 | Some p \<Rightarrow> rewards_sum p)"
    and L3: "\<And>a. is_num (case joined_pool pools a of None \<Rightarrow> JNum 0 | Some p \<Rightarrow> usd_of p)"
  shows "\<exists>hs ds. loop_body U X m u st (n, info) = Inr (fst st @ hs, snd st @ ds)
           \<and> map (\<lambda>r. (name r, pool_info r)) hs =
               (if qualifies pools u n info \<and> apy_above pools m info then [(n, info)] else [])
           \<and> map apy_name ds =
               (if qualifies pools u n info \<and> apy_above pools 0 info then [n] else [])"
proof -
  from wf obtain kvs where obj: "info = JObj kvs"
    by (cases info) (simp_all add: wf_gauge_record_def)
  have addr: "pool_address_of (JObj kvs) = Inr (join_key (JObj kvs))"
    using wf wf_gauge_address obj by simp
  have "is_num (usd_lookup_get U (join_key (JObj kvs)))"
    unfolding L1 by (rule L3)
  then obtain w where usd: "usd_lookup_get U (join_key (JObj kvs)) = JNum w"
    by (cases "usd_lookup_get U (join_key (JObj kvs))") simp_all
  have w: "joined_usd_total pools (JObj kvs) = JNum w"
    using usd unfolding L1 by (simp add: joined_usd_total_def)
  have extra: "extra_lookup_get X (join_key (JObj kvs)) = joined_extra_apy pools (JObj kvs)"
    by (simp add: L2 joined_extra_apy_def)
  show ?thesis
  proof (cases "passes_items_1_to_4 info \<and> name_allowed n \<and> u \<le> w")
    case False
    then have skip: "loop_body U X m u st (n, info) = Inr st"
      unfolding obj loop_body_def Let_def
      by (auto simp: passes_items_1_to_4_def name_allowed_def field_def addr usd
               split: option.splits json.splits)
    have "\<not> qualifies pools u n info" using False by (simp add: qualifies_def w obj)
    then show ?thesis using skip by simp
  next
    case True
    then obtain g0 g1 where g: "map_of kvs ''gaugeCrvApy'' = Some (JArr [g0, g1])"
      unfolding obj passes_items_1_to_4_def field_def
      by (auto split: option.splits json.splits simp: length_Suc_conv numeral_2_eq_2)
    have el: "g0 = JNull \<or> is_num g0" "g1 = JNull \<or> is_num g1"
      using wf g by (simp_all add: obj wf_gauge_record_def)
    have q: "qualifies pools u n info" using True by (simp add: qualifies_def w obj)
    have t0: "total_apy pools info 0 = num_or_zero g0 + joined_extra_apy pools (JObj kvs)"
      and t1: "total_apy pools info (Suc 0) = num_or_zero g1 + joined_extra_apy pools (JObj kvs)"
      using g by (simp_all add: total_apy_def gauge_apy_def field_def obj)
    show ?thesis
      using True g q unfolding obj loop_body_def Let_def
      by (simp add: passes_items_1_to_4_def name_allowed_def field_def addr usd extra
            base_apy_def wf_base_apy [OF el(1)] wf_base_apy [OF el(2)]
            apy_above_def t0 [unfolded obj] t1 [unfolded obj])
  qed
qed

lemma score_pools_wf:
  assumes L1: "\<And>a. usd_lookup_get U a =
              (case joined_pool pools a of None \<Rightarrow> JNum 0 | Some p \<Rightarrow> usd_of p)"
    and L2: "\<And>a. extra_lookup_get X a =
              (case joined_pool pools a of None \<Rightarrow> 0 | Some p \<Rightarrow> rewards_sum p)"
    and L3: "\<And>a. is_num (case joined_pool pools a of None \<Rightarrow> JNum 0 | Some p \<Rightarrow> usd_of p)"
  shows "list_all (\<lambda>e. wf_gauge_record (snd e)) entries \<Longrightarrow>
     \<exists>hs ds. score_pools U X m u st entries = Inr (fst st @ hs, snd st @ ds)
       \<and> map (\<lambda>r. (name r, pool_info r)) hs =
           filter (\<lambda>e. qualifies pools u (fst e) (snd e) \<and> apy_above pools m (snd e)) entries
       \<and> map apy_name ds =
           map fst (filter (\<lambda>e. qualifies pools u (fst e) (snd e) \<and> apy_above pools 0 (snd e))
                      entries)"
proof (induction entries arbitrary: st)
  case Nil
  show ?case by simp
next
  case (Cons e entries)
  from Cons.prems have wf: "wf_gauge_record (snd e)"
    and rest: "list_all (\<lambda>e. wf_gauge_record (snd e)) entries" by simp_all
  from loop_body_wf [OF wf L1 L2 L3, of m u st "fst e"] obtain hs1 ds1 where
    b: "loop_body U X m u st e = Inr (fst st @ hs1, snd st @ ds1)"
    and h1: "map (\<lambda>r. (name r, pool_info r)) hs1 =
        (if qualifies pools u (fst e) (snd e) \<and> apy_above pools m (snd e) then [e] else [])"
    and d1: "map apy_name ds1 =
        (if qualifies pools u (fst e) (snd e) \<and> apy_above pools 0 (snd e) then [fst e] else [])"
    by auto
  from Cons.IH [OF rest, of "(fst st @ hs1, snd st @ ds1)"] obtain hs2 ds2 where
    r: "score_pools U X m u (fst st @ hs1, snd st @ ds1) entries
          = Inr (fst st @ hs1 @ hs2, snd st @ ds1 @ ds2)"
    and h2: "map (\<lambda>r. (name r, pool_info r)) hs2 =
           filter (\<lambda>e. qualifies pools u (fst e) (snd e) \<and> apy_above pools m (snd e)) entries"
    and d2: "map apy_name ds2 =
           map fst (filter (\<lambda>e. qualifies pools u (fst e) (snd e) \<and> apy_above pools 0 (snd e))
                      entries)"
    by auto
  have "score_pools U X m u st (e # entries) = Inr (fst st @ (hs1 @ hs2), snd st @ (ds1 @ ds2))"
    using b r by simp
  moreover have "map (\<lambda>r. (name r, pool_info r)) (hs1 @ hs2) =
      filter (\<lambda>e. qualifies pools u (fst e) (snd e) \<and> apy_above pools m (snd e)) (e # entries)"
    using h1 h2 by simp
  moreover have "map apy_name (ds1 @ ds2) =
      map fst (filter (\<lambda>e. qualifies pools u (fst e) (snd e) \<and> apy_above pools 0 (snd e))
                 (e # entries))"
    using d1 d2 by simp
  ultimately show ?case by blast
qed

lemma joined_pool_in_set:
  "joined_pool pools a = Some p \<Longrightarrow> p \<in> set pools"
proof -
  assume "joined_pool pools a = Some p"
  then have "p \<in> set (rev pools)"
    unfolding joined_pool_def find_Some_iff by (metis length_rev nth_mem)
  then show ?thesis by simp
qed

lemma wf_pool_usd_num:
  "wf_pool_record p \<Longrightarrow> is_num (usd_of p)"
  by (cases p) (auto simp: wf_pool_record_def usd_of_def field_def split: option.splits)

lemma wf_joined_usd_num:
  assumes "list_all wf_pool_record pools"
  shows "is_num (case joined_pool pools a of None \<Rightarrow> JNum 0 | Some p \<Rightarrow> usd_of p)"
proof (cases "joined_pool pools a")
  case None
  then show ?thesis by simp
next
  case (Some p)
  then have "wf_pool_record p"
    using assms joined_pool_in_set by (auto simp: list_all_iff)
  then show ?thesis using Some by (simp add: wf_pool_usd_num)
qed

lemma scan_wf:
  assumes "subscript data ''data'' = Inr (JObj entries)"
    and "list_all (\<lambda>e. wf_gauge_record (snd e)) entries"
    and "subscript all_pools_data ''data'' = Inr d"
    and "subscript d ''poolData'' = Inr (JArr pools)"
    and "list_all wf_pool_record pools"
  shows "\<exists>high diag. scan data all_pools_data m u = Inr (high, diag)
       \<and> map (\<lambda>r. (name r, pool_info r)) high =
           filter (\<lambda>e. qualifies pools u (fst e) (snd e) \<and> apy_above pools m (snd e)) entries
       \<and> map apy_name diag =
           map fst (filter (\<lambda>e. qualifies pools u (fst e) (snd e) \<and> apy_above pools 0 (snd e))
                      entries)"
proof -
  from build_lookups_wf [OF assms(5)] obtain lookups where
    b: "build_lookups (Map.empty, Map.empty) pools = Inr lookups" by blast
  have L1: "\<And>a. usd_lookup_get (fst lookups) a =
              (case joined_pool pools a of None \<Rightarrow> JNum 0 | Some p \<Rightarrow> usd_of p)"
    using lookups_joined [OF b] by (simp add: usd_lookup_get_def split: option.splits)
  have L2: "\<And>a. extra_lookup_get (snd lookups) a =
              (case joined_pool pools a of None \<Rightarrow> 0 | Some p \<Rightarrow> rewards_sum p)"
    using lookups_joined [OF b] by (simp add: extra_lookup_get_def split: option.splits)
  have L3: "\<And>a. is_num (case joined_pool pools a of None \<Rightarrow> JNum 0 | Some p \<Rightarrow> usd_of p)"
    using assms(5) by (rule wf_joined_usd_num)
  have "scan data all_pools_data m u =
      score_pools (fst lookups) (snd lookups) m u ([], []) entries"
    using assms(1,3,4) b by (simp add: scan_def)
  then show ?thesis
    using score_pools_wf [OF L1 L2 L3 assms(2), of m u "([], [])"] by simp
qed


text \<open>
  Claim C3, as amended. On well-formed documents the loop completes, and the names on the
  list \<^verbatim>\<open>all_pools_with_apy\<close> are, in document order, those of the gauge entries that pass all
  six qualification items and have a total APY above 0 at either end of the range. The
  name check and the liquidity threshold do filter this list.
\<close>

theorem diagnostic_list_is_filtered_by_all_six_items:
  assumes "subscript data ''data'' = Inr (JObj entries)"
    and "list_all (\<lambda>e. wf_gauge_record (snd e)) entries"
    and "subscript all_pools_data ''data'' = Inr d"
    and "subscript d ''poolData'' = Inr (JArr pools)"
    and "list_all wf_pool_record pools"
  shows "\<exists>high_apy_pools all_pools_with_apy.
           scan data all_pools_data min_apy min_usd_total
             = Inr (high_apy_pools, all_pools_with_apy)
         \<and> map apy_name all_pools_with_apy =
             map fst (filter (\<lambda>e. passes_items_1_to_4 (snd e) \<and> name_allowed (fst e)
                                 \<and> min_usd_total \<le> num_or_zero (joined_usd_total pools (snd e))
                                 \<and> (total_apy pools (snd e) 0 > 0 \<or> total_apy pools (snd e) 1 > 0))
                        entries)"
  using scan_wf [OF assms, of min_apy min_usd_total]
  by (auto simp: qualifies_def apy_above_def conj_ac)

theorem diagnostic_list_witness:
  "list_all (\<lambda>e. wf_gauge_record (snd e))
     [(''wbtcpool'', ex_gauge (JArr [JNum 5, JNum 6])), (''lowpool'', ex_low_gauge),
      (''stable3pool'', ex_gauge (JArr [JNull, JNum 1]))]
   \<and> list_all wf_pool_record [ex_pool 6000000, ex_low_pool]
   \<and> (\<exists>high_apy_pools all_pools_with_apy.
         scan (ex_gauges_doc
                 [(''wbtcpool'', ex_gauge (JArr [JNum 5, JNum 6])), (''lowpool'', ex_low_gauge),
                  (''stable3pool'', ex_gauge (JArr [JNull, JNum 1]))])
              (ex_pools_doc [ex_pool 6000000, ex_low_pool]) 7 5000000
           = Inr (high_apy_pools, all_pools_with_apy)
         \<and> map apy_name all_pools_with_apy = [''stable3pool''])"
proof -
  let ?E = "[(''wbtcpool'', ex_gauge (JArr [JNum 5, JNum 6])), (''lowpool'', ex_low_gauge),
      (''stable3pool'', ex_gauge (JArr [JNull, JNum 1]))]"
  let ?P = "[ex_pool 6000000, ex_low_pool]"
  have h1: "subscript (ex_gauges_doc ?E) ''data'' = Inr (JObj ?E)" by simp
  have h2: "list_all (\<lambda>e. wf_gauge_record (snd e)) ?E" by (simp add: wf_gauge_record_def)
  have h3: "subscript (ex_pools_doc ?P) ''data'' = Inr (JObj [(''poolData'', JArr ?P)])" by simp
  have h4: "subscript (JObj [(''poolData'', JArr ?P)]) ''poolData'' = Inr (JArr ?P)" by simp
  have h5: "list_all wf_pool_record ?P" by (simp add: wf_pool_record_def wf_reward_def)
  have f: "map fst (filter (\<lambda>e. passes_items_1_to_4 (snd e) \<and> name_allowed (fst e)
                                 \<and> 5000000 \<le> num_or_zero (joined_usd_total ?P (snd e))
                                 \<and> (total_apy ?P (snd e) 0 > 0 \<or> total_apy ?P (snd e) 1 > 0))
                        ?E) = [''stable3pool'']"
    by code_simp
  from diagnostic_list_is_filtered_by_all_six_items [OF h1 h2 h3 h4 h5, of 7 5000000]
  have "\<exists>high_apy_pools all_pools_with_apy.
         scan (ex_gauges_doc ?E) (ex_pools_doc ?P) 7 5000000
           = Inr (high_apy_pools, all_pools_with_apy)
         \<and> map apy_name all_pools_with_apy = [''stable3pool'']"
    unfolding f .
  then show ?thesis using h2 h5 by blast
qed

text \<open>
  Claim C3 as stated fails: both entries below pass items 1 to 4 and have a total APY
  above 0, one is excluded by its name and the other by its liquidity, and neither is on
  the list \<^verbatim>\<open>all_pools_with_apy\<close>, so the function reports that there is none.
\<close>

theorem diagnostic_list_counterexample:
  "passes_items_1_to_4 (ex_gauge (JArr [JNum 5, JNum 6]))
   \<and> total_apy [ex_pool 6000000, ex_low_pool] (ex_gauge (JArr [JNum 5, JNum 6])) 0 > 0
   \<and> passes_items_1_to_4 ex_low_gauge
   \<and> total_apy [ex_pool 6000000, ex_low_pool] ex_low_gauge 0 > 0
   \<and> scan (ex_gauges_doc [(''wbtcpool'', ex_gauge (JArr [JNum 5, JNum 6])),
                            (''lowpool'', ex_low_gauge)])
          (ex_pools_doc [ex_pool 6000000, ex_low_pool]) 7 5000000 = Inr ([], [])
   \<and> filter_high_apy_pools
        (Content (ex_gauges_doc [(''wbtcpool'', ex_gauge (JArr [JNum 5, JNum 6])),
                                 (''lowpool'', ex_low_gauge)]))
        (Content (ex_pools_doc [ex_pool 6000000, ex_low_pool])) 7 5000000 = ([No_nonzero], [])"
  by code_simp

section \<open>A null in the reported range\<close>

text \<open>
  Claim C1. The entry below meets all the conditions of the claim: it passes the six
  items and its upper total APY, 13, is above the threshold 7, and the loop does put it
  on the list \<^verbatim>\<open>high_apy_pools\<close>. Its lower \<^verbatim>\<open>gaugeCrvApy\<close> value is \<^verbatim>\<open>null\<close>, which line 96 treats
  as 0 and line 132 cannot format: the \<^verbatim>\<open>TypeError\<close> is caught by the last handler, and the
  function returns the empty list.
\<close>

theorem null_in_gauge_apy_empties_result:
  "qualifies [ex_pool 6000000] 5000000 ''stable3pool'' (ex_gauge (JArr [JNull, JNum 10]))
   \<and> total_apy [ex_pool 6000000] (ex_gauge (JArr [JNull, JNum 10])) 1 > 7
   \<and> scan (ex_gauges_doc [(''stable3pool'', ex_gauge (JArr [JNull, JNum 10]))])
          (ex_pools_doc [ex_pool 6000000]) 7 5000000
      = Inr ([\<lparr>name = ''stable3pool'', pool_info = ex_gauge (JArr [JNull, JNum 10]),
                gaugeCrvApy = JArr [JNull, JNum 10], extra_rewards_apy = 3,
                total_apy_range = [3, 13], max_apy = 13, usd_total = JNum 6000000\<rparr>],
              [\<lparr>apy_name = ''stable3pool'', apy_gaugeCrvApy = JArr [JNull, JNum 10],
                apy_extra_rewards_apy = 3, apy_hasNoCrv = JBool False\<rparr>])
   \<and> filter_high_apy_pools
        (Content (ex_gauges_doc [(''stable3pool'', ex_gauge (JArr [JNull, JNum 10]))]))
        (Content (ex_pools_doc [ex_pool 6000000])) 7 5000000
      = ([Found_nonzero 1, Error TypeError], [])"
  by code_simp

end
